theory Spec2Isabelle
  imports Main "HOL-Library.Word"
begin

section \<open>JavaScript strings\<close>

text \<open>
  A JavaScript string is a sequence of 16-bit code units. All regular expressions of the
  source are written without the \<open>u\<close>, \<open>i\<close> and \<open>m\<close> flags, so they compare code units
  and \<open>$\<close> matches at the end of the input only.
\<close>

type_synonym codeunit = "16 word"
type_synonym jsstring = "codeunit list"

text \<open>ASCII text of the theory as a JavaScript string (one code unit per character).\<close>

definition js :: "string \<Rightarrow> jsstring" where
  "js s = map (\<lambda>c. of_nat (of_char c)) s"

definition backslash :: codeunit where
  "backslash = 0x5C"

definition openBrace :: codeunit where
  "openBrace = 0x7B"

definition closeBrace :: codeunit where
  "closeBrace = 0x7D"

text \<open>
  The class \<open>\s\<close> of a regular expression and the characters removed by \<open>trim()\<close>
  are the same set: WhiteSpace and LineTerminator of ECMAScript.
\<close>

definition isWhiteSpace :: "codeunit \<Rightarrow> bool" where
  "isWhiteSpace c =
     (c = 0x09 \<or> c = 0x0A \<or> c = 0x0B \<or> c = 0x0C \<or> c = 0x0D \<or> c = 0x20 \<or>
      c = 0xA0 \<or> c = 0x1680 \<or> (0x2000 \<le> c \<and> c \<le> 0x200A) \<or>
      c = 0x2028 \<or> c = 0x2029 \<or> c = 0x202F \<or> c = 0x205F \<or> c = 0x3000 \<or>
      c = 0xFEFF)"

definition startsWith :: "jsstring \<Rightarrow> jsstring \<Rightarrow> bool" where
  "startsWith s p = (take (length p) s = p)"

definition jsonFence :: jsstring where
  "jsonFence = [0x60, 0x60, 0x60, 0x6A, 0x73, 0x6F, 0x6E]"

definition fence :: jsstring where
  "fence = [0x60, 0x60, 0x60]"

text \<open>\<open>String.prototype.trim\<close>.\<close>

definition trim :: "jsstring \<Rightarrow> jsstring" where
  "trim s = rev (dropWhile isWhiteSpace (rev (dropWhile isWhiteSpace s)))"

text \<open>\<open>String.prototype.indexOf\<close> and \<open>lastIndexOf\<close> of one character: \<open>-1\<close> when absent.\<close>

fun indexOf :: "jsstring \<Rightarrow> codeunit \<Rightarrow> int" where
  "indexOf [] c = -1"
| "indexOf (x # xs) c =
     (if x = c then 0
      else (let r = indexOf xs c in if r = -1 then -1 else r + 1))"

fun lastIndexOf :: "jsstring \<Rightarrow> codeunit \<Rightarrow> int" where
  "lastIndexOf [] c = -1"
| "lastIndexOf (x # xs) c =
     (let r = lastIndexOf xs c in
      if r = -1 then (if x = c then 0 else -1) else r + 1)"

text \<open>
  \<open>String.prototype.substring(start, end)\<close>: both indices are clamped to
  \<open>0 .. length\<close> and swapped when the first exceeds the second.
\<close>

definition substring :: "jsstring \<Rightarrow> int \<Rightarrow> int \<Rightarrow> jsstring" where
  "substring s start end =
     (let len = int (length s);
          intStart = min (max start 0) len;
          intEnd = min (max end 0) len;
          from = min intStart intEnd;
          to = max intStart intEnd
      in take (nat (to - from)) (drop (nat from) s))"

section \<open>The regular-expression replacements of \<open>sanitizeJsonString\<close>\<close>

text \<open>
  \<open>str.replace(/```json\s?/, "")\<close>: the leftmost occurrence of the marker and at most
  one white-space character after it are removed; the expression has no \<open>g\<close> flag, so
  only the first match is replaced.
\<close>

fun replaceJsonFence :: "jsstring \<Rightarrow> jsstring" where
  "replaceJsonFence [] = []"
| "replaceJsonFence (c # cs) =
     (if startsWith (c # cs) jsonFence
      then (case drop (length jsonFence) (c # cs) of
              [] \<Rightarrow> []
            | d # ds \<Rightarrow> if isWhiteSpace d then ds else d # ds)
      else c # replaceJsonFence cs)"

text \<open>
  \<open>.replace(/```\s?$/, "")\<close>: the match has to reach the end of the string, with at most
  one white-space character after the three backquotes.
\<close>

definition endFenceAt :: "jsstring \<Rightarrow> bool" where
  "endFenceAt s =
     (startsWith s fence \<and>
      (case drop (length fence) s of
         [] \<Rightarrow> True
       | d # ds \<Rightarrow> isWhiteSpace d \<and> ds = []))"

fun replaceEndFence :: "jsstring \<Rightarrow> jsstring" where
  "replaceEndFence [] = []"
| "replaceEndFence (c # cs) =
     (if endFenceAt (c # cs) then [] else c # replaceEndFence cs)"

text \<open>
  \<open>cleaned.replace(/\\u(?![0-9a-fA-F]{4})/g, "u")\<close>: every backslash followed by \<open>u\<close>
  that is not followed by four hexadecimal digits becomes \<open>u\<close>; the scan goes on after
  the two characters of the match.
\<close>

definition isHexDigit :: "codeunit \<Rightarrow> bool" where
  "isHexDigit c =
     ((0x30 \<le> c \<and> c \<le> 0x39) \<or> (0x61 \<le> c \<and> c \<le> 0x66) \<or> (0x41 \<le> c \<and> c \<le> 0x46))"

fun fourHexDigits :: "jsstring \<Rightarrow> bool" where
  "fourHexDigits (a # b # c # d # rest) =
     (isHexDigit a \<and> isHexDigit b \<and> isHexDigit c \<and> isHexDigit d)"
| "fourHexDigits rest = False"

fun replaceBadUnicode :: "jsstring \<Rightarrow> jsstring" where
  "replaceBadUnicode (c # d # rest) =
     (if c = backslash \<and> d = 0x75 \<and> \<not> fourHexDigits rest
      then 0x75 # replaceBadUnicode rest
      else c # replaceBadUnicode (d # rest))"
| "replaceBadUnicode rest = rest"

text \<open>Whether a backslash followed by \<open>u\<close> occurs in a text.\<close>

fun hasBackslashU :: "jsstring \<Rightarrow> bool" where
  "hasBackslashU (c # d # rest) = ((c = backslash \<and> d = 0x75) \<or> hasBackslashU (d # rest))"
| "hasBackslashU rest = False"

text \<open>
  \<open>cleaned.replace(/[\x00-\x08\x0B\x0C\x0E-\x1F\x7F-\x9F]/g, "")\<close>: a character class
  is a list of ranges.
\<close>

fun inRanges :: "(codeunit \<times> codeunit) list \<Rightarrow> codeunit \<Rightarrow> bool" where
  "inRanges [] c = False"
| "inRanges ((lo, hi) # rs) c = ((lo \<le> c \<and> c \<le> hi) \<or> inRanges rs c)"

definition controlClass :: "(codeunit \<times> codeunit) list" where
  "controlClass = [(0x00, 0x08), (0x0B, 0x0B), (0x0C, 0x0C), (0x0E, 0x1F), (0x7F, 0x9F)]"

fun removeControlChars :: "jsstring \<Rightarrow> jsstring" where
  "removeControlChars [] = []"
| "removeControlChars (c # cs) =
     (if inRanges controlClass c then removeControlChars cs
      else c # removeControlChars cs)"

section \<open>\<open>sanitizeJsonString\<close>\<close>

definition sanitizeJsonString :: "jsstring \<Rightarrow> jsstring" where
  "sanitizeJsonString str =
     (let cleaned = trim (replaceEndFence (replaceJsonFence str));
          firstBrace = indexOf cleaned openBrace;
          lastBrace = lastIndexOf cleaned closeBrace;
          cleaned = (if firstBrace \<noteq> -1 \<and> lastBrace \<noteq> -1
                     then substring cleaned firstBrace (lastBrace + 1)
                     else cleaned);
          cleaned = replaceBadUnicode cleaned;
          cleaned = removeControlChars cleaned
      in cleaned)"

text \<open>The value of \<open>cleaned\<close> after line 50 of the source: fences stripped, then trimmed.\<close>

definition stripFences :: "jsstring \<Rightarrow> jsstring" where
  "stripFences str = trim (replaceEndFence (replaceJsonFence str))"

text \<open>Lines 53 to 57 of the source, as a function of the value of \<open>cleaned\<close>.\<close>

definition jsonBounds :: "jsstring \<Rightarrow> jsstring" where
  "jsonBounds cleaned =
     (let firstBrace = indexOf cleaned openBrace;
          lastBrace = lastIndexOf cleaned closeBrace
      in if firstBrace \<noteq> -1 \<and> lastBrace \<noteq> -1
         then substring cleaned firstBrace (lastBrace + 1)
         else cleaned)"

text \<open>
  The span the specification describes for that step: from the first opening brace to
  the last closing brace, both included.
\<close>

definition braceSpan :: "jsstring \<Rightarrow> jsstring" where
  "braceSpan t =
     take (nat (lastIndexOf t closeBrace + 1 - indexOf t openBrace))
       (drop (nat (indexOf t openBrace)) t)"

text \<open>
  The ranges of control characters as the specification lists them: 0x00 to 0x08, 0x0B,
  0x0C, 0x0E to 0x1F and 0x7F to 0x9F.
\<close>

definition removedControl :: "codeunit \<Rightarrow> bool" where
  "removedControl c =
     (c \<le> 0x08 \<or> c = 0x0B \<or> c = 0x0C \<or> (0x0E \<le> c \<and> c \<le> 0x1F) \<or>
      (0x7F \<le> c \<and> c \<le> 0x9F))"

section \<open>The fence stripping of \<open>src/services/geminiService.ts\<close>\<close>

text \<open>
  \<open>text.replace(/^```json\s*/, '')\<close>: the marker is removed at the start of the string
  only, with all the white space after it.
\<close>

definition replaceLeadingFence :: "jsstring \<Rightarrow> jsstring" where
  "replaceLeadingFence s =
     (if startsWith s jsonFence then dropWhile isWhiteSpace (drop (length jsonFence) s)
      else s)"

text \<open>
  \<open>.replace(/\s*```$/, '')\<close>: the leftmost position from which white space and then
  the three backquotes reach the end of the string.
\<close>

fun replaceTrailingFence :: "jsstring \<Rightarrow> jsstring" where
  "replaceTrailingFence [] = []"
| "replaceTrailingFence (c # cs) =
     (if dropWhile isWhiteSpace (c # cs) = fence then []
      else c # replaceTrailingFence cs)"

section \<open>JSON values and \<open>JSON.parse\<close>\<close>

text \<open>
  \<open>JSON.parse\<close> is a built-in of the platform, not code of the repository. The model of
  \<open>analyzeSlideImage\<close> takes the parser as a parameter; \<open>JSON_parse\<close> below is a
  recursive-descent parser of the JSON grammar, used to run the examples. A number is
  kept as an exact decimal (mantissa and decimal exponent), an object as the list of its
  members in the order of the text.
\<close>

datatype json =
    JNull
  | JBool bool
  | JNumber int int
  | JString jsstring
  | JArray "json list"
  | JObject "(jsstring \<times> json) list"

datatype js_error = SyntaxError string | ApiError string

definition isJsonWs :: "codeunit \<Rightarrow> bool" where
  "isJsonWs c = (c = 0x20 \<or> c = 0x09 \<or> c = 0x0A \<or> c = 0x0D)"

definition skipWs :: "jsstring \<Rightarrow> jsstring" where
  "skipWs s = dropWhile isJsonWs s"

definition isDigit :: "codeunit \<Rightarrow> bool" where
  "isDigit c = (0x30 \<le> c \<and> c \<le> 0x39)"

definition hexValue :: "codeunit \<Rightarrow> codeunit" where
  "hexValue c =
     (if 0x30 \<le> c \<and> c \<le> 0x39 then c - 0x30
      else if 0x61 \<le> c \<and> c \<le> 0x66 then c - 0x61 + 10
      else c - 0x41 + 10)"

definition simpleEscape :: "codeunit \<Rightarrow> codeunit option" where
  "simpleEscape e =
     (if e = 0x22 then Some 0x22
      else if e = 0x5C then Some 0x5C
      else if e = 0x2F then Some 0x2F
      else if e = 0x62 then Some 0x08
      else if e = 0x66 then Some 0x0C
      else if e = 0x6E then Some 0x0A
      else if e = 0x72 then Some 0x0D
      else if e = 0x74 then Some 0x09
      else None)"

text \<open>The characters of a string literal after its opening quote, and the rest.\<close>

fun parseStringBody :: "jsstring \<Rightarrow> (jsstring \<times> jsstring) option" where
  "parseStringBody [] = None"
| "parseStringBody (c # cs) =
     (if c = 0x22 then Some ([], cs)
      else if c = 0x5C then
        (case cs of
           [] \<Rightarrow> None
         | e # es \<Rightarrow>
             if e = 0x75 then
               (case es of
                  h1 # h2 # h3 # h4 # rest \<Rightarrow>
                    if isHexDigit h1 \<and> isHexDigit h2 \<and> isHexDigit h3 \<and> isHexDigit h4
                    then (case parseStringBody rest of
                            None \<Rightarrow> None
                          | Some (str, r) \<Rightarrow>
                              Some ((((hexValue h1 * 16 + hexValue h2) * 16 + hexValue h3) * 16
                                       + hexValue h4) # str, r))
                    else None
                | _ \<Rightarrow> None)
             else
               (case simpleEscape e of
                  None \<Rightarrow> None
                | Some x \<Rightarrow>
                    (case parseStringBody es of
                       None \<Rightarrow> None
                     | Some (str, r) \<Rightarrow> Some (x # str, r))))
      else if c < 0x20 then None
      else (case parseStringBody cs of
              None \<Rightarrow> None
            | Some (str, r) \<Rightarrow> Some (c # str, r)))"

definition digitsValue :: "jsstring \<Rightarrow> int" where
  "digitsValue ds = foldl (\<lambda>acc d. acc * 10 + uint (d - 0x30)) 0 ds"

text \<open>
  A number: an optional minus sign, an integer part without a superfluous leading zero,
  an optional fraction, an optional exponent.
\<close>

definition parseExponent :: "jsstring \<Rightarrow> (int \<times> jsstring) option" where
  "parseExponent s =
     (case s of
        [] \<Rightarrow> Some (0, s)
      | e # es \<Rightarrow>
          if e = 0x65 \<or> e = 0x45 then
            (let neg = (case es of [] \<Rightarrow> False | g # gs \<Rightarrow> g = 0x2D);
                 signed = (case es of [] \<Rightarrow> False | g # gs \<Rightarrow> g = 0x2D \<or> g = 0x2B);
                 ds = (if signed then tl es else es);
                 digits = takeWhile isDigit ds
             in if digits = [] then None
                else Some ((if neg then - digitsValue digits else digitsValue digits),
                           dropWhile isDigit ds))
          else Some (0, s))"

definition parseFraction :: "jsstring \<Rightarrow> (jsstring \<times> jsstring) option" where
  "parseFraction s =
     (case s of
        [] \<Rightarrow> Some ([], s)
      | p # ps \<Rightarrow>
          if p = 0x2E then
            (let digits = takeWhile isDigit ps
             in if digits = [] then None else Some (digits, dropWhile isDigit ps))
          else Some ([], s))"

definition parseNumber :: "jsstring \<Rightarrow> (json \<times> jsstring) option" where
  "parseNumber s =
     (let neg = (case s of [] \<Rightarrow> False | m # ms \<Rightarrow> m = 0x2D);
          s1 = (if neg then tl s else s);
          ip = takeWhile isDigit s1
      in if ip = [] \<or> (1 < length ip \<and> take 1 ip = [0x30]) then None
         else (case parseFraction (dropWhile isDigit s1) of
                 None \<Rightarrow> None
               | Some (fp, s2) \<Rightarrow>
                   (case parseExponent s2 of
                      None \<Rightarrow> None
                    | Some (ex, s3) \<Rightarrow>
                        Some (JNumber
                                (if neg then - digitsValue (ip @ fp) else digitsValue (ip @ fp))
                                (ex - int (length fp)), s3))))"

text \<open>
  The mutually recursive part of the grammar. The first argument bounds the depth of the
  recursion; \<open>JSON_parse\<close> starts it at twice the length of the text plus two, which is
  proved below to be enough. \<open>None\<close> is a syntax error.
\<close>

fun parseValue :: "nat \<Rightarrow> jsstring \<Rightarrow> (json \<times> jsstring) option"
  and parseElements :: "nat \<Rightarrow> jsstring \<Rightarrow> (json list \<times> jsstring) option"
  and parseMembers :: "nat \<Rightarrow> jsstring \<Rightarrow> ((jsstring \<times> json) list \<times> jsstring) option"
where
  "parseValue 0 s = None"
| "parseValue (Suc n) s =
     (case skipWs s of
        [] \<Rightarrow> None
      | c # cs \<Rightarrow>
          if c = 0x7B then
            (case skipWs cs of
               [] \<Rightarrow> None
             | d # ds \<Rightarrow>
                 if d = 0x7D then Some (JObject [], ds)
                 else (case parseMembers n cs of
                         None \<Rightarrow> None
                       | Some (ms, r) \<Rightarrow> Some (JObject ms, r)))
          else if c = 0x5B then
            (case skipWs cs of
               [] \<Rightarrow> None
             | d # ds \<Rightarrow>
                 if d = 0x5D then Some (JArray [], ds)
                 else (case parseElements n cs of
                         None \<Rightarrow> None
                       | Some (vs, r) \<Rightarrow> Some (JArray vs, r)))
          else if c = 0x22 then
            (case parseStringBody cs of
               None \<Rightarrow> None
             | Some (str, r) \<Rightarrow> Some (JString str, r))
          else if startsWith (c # cs) (js ''true'') then Some (JBool True, drop 4 (c # cs))
          else if startsWith (c # cs) (js ''false'') then Some (JBool False, drop 5 (c # cs))
          else if startsWith (c # cs) (js ''null'') then Some (JNull, drop 4 (c # cs))
          else parseNumber (c # cs))"
| "parseElements 0 s = None"
| "parseElements (Suc n) s =
     (case parseValue n s of
        None \<Rightarrow> None
      | Some (v, r) \<Rightarrow>
          (case skipWs r of
             [] \<Rightarrow> None
           | c # cs \<Rightarrow>
               if c = 0x2C then
                 (case parseElements n cs of
                    None \<Rightarrow> None
                  | Some (vs, r') \<Rightarrow> Some (v # vs, r'))
               else if c = 0x5D then Some ([v], cs)
               else None))"
| "parseMembers 0 s = None"
| "parseMembers (Suc n) s =
     (case skipWs s of
        [] \<Rightarrow> None
      | q # qs \<Rightarrow>
          if q = 0x22 then
            (case parseStringBody qs of
               None \<Rightarrow> None
             | Some (k, r) \<Rightarrow>
                 (case skipWs r of
                    [] \<Rightarrow> None
                  | c # cs \<Rightarrow>
                      if c = 0x3A then
                        (case parseValue n cs of
                           None \<Rightarrow> None
                         | Some (v, r2) \<Rightarrow>
                             (case skipWs r2 of
                                [] \<Rightarrow> None
                              | e # es \<Rightarrow>
                                  if e = 0x2C then
                                    (case parseMembers n es of
                                       None \<Rightarrow> None
                                     | Some (ms, r3) \<Rightarrow> Some ((k, v) # ms, r3))
                                  else if e = 0x7D then Some ([(k, v)], es)
                                  else None))
                      else None))
          else None)"

definition JSON_parse :: "jsstring \<Rightarrow> js_error + json" where
  "JSON_parse s =
     (case parseValue (2 * length s + 2) s of
        None \<Rightarrow> Inl (SyntaxError ''Unexpected token'')
      | Some (v, r) \<Rightarrow>
          if skipWs r = [] then Inr v else Inl (SyntaxError ''Unexpected token''))"

text \<open>
  Reading a property of the result: \<open>None\<close> is JavaScript's \<open>undefined\<close>. When a key
  occurs twice in the text, the later member is the one the object keeps.
\<close>

fun getProp :: "jsstring \<Rightarrow> json \<Rightarrow> json option" where
  "getProp k (JObject ms) = map_of (rev ms) k"
| "getProp k v = None"

section \<open>\<open>analyzeSlideImage\<close>\<close>

text \<open>
  The request to the model is outside the function's logic: its outcome is the input of
  the model, either the error the awaited call threw or \<open>response.text\<close>, which may be
  \<open>undefined\<close>. The calls the function makes are recorded in the order they happen.
\<close>

datatype event =
    CallSanitize jsstring
  | CallJsonParse jsstring
  | ConsoleError js_error
  | ConsoleWarn string

definition defaultResult :: json where
  "defaultResult = JObject [(js ''backgroundColor'', JString (js ''#FFFFFF'')),
                            (js ''elements'', JArray [])]"

definition isSyntaxError :: "js_error \<Rightarrow> bool" where
  "isSyntaxError e = (case e of SyntaxError m \<Rightarrow> True | ApiError m \<Rightarrow> False)"

text \<open>
  The \<open>catch\<close> block of the unnamed source file: it logs the error, warns when the error
  is a \<open>SyntaxError\<close> (the inner \<open>try\<close> only reads the message into a local constant),
  and throws the error again.
\<close>

definition catchBlock :: "js_error \<Rightarrow> event list \<times> (js_error + json)" where
  "catchBlock error =
     (ConsoleError error #
        (if isSyntaxError error
         then [ConsoleWarn ''Retrying with more aggressive cleaning...'']
         else []),
      Inl error)"

definition analyzeSlideImage ::
  "(jsstring \<Rightarrow> js_error + json) \<Rightarrow> js_error + jsstring option \<Rightarrow>
   event list \<times> (js_error + json)"
where
  "analyzeSlideImage jsonParse response =
     (case response of
        Inl error \<Rightarrow> catchBlock error
      | Inr None \<Rightarrow> ([], Inr defaultResult)
      | Inr (Some text) \<Rightarrow>
          if text = [] then ([], Inr defaultResult)
          else
            (let sanitizedText = sanitizeJsonString text
             in case jsonParse sanitizedText of
                  Inr v \<Rightarrow> ([CallSanitize text, CallJsonParse sanitizedText], Inr v)
                | Inl error \<Rightarrow>
                    (let (events, thrown) = catchBlock error
                     in ([CallSanitize text, CallJsonParse sanitizedText] @ events, thrown))))"

text \<open>
  \<open>analyzeSlideImage\<close> of \<open>src/services/geminiService.ts\<close>: the fences are stripped in
  place, and the \<open>catch\<close> block logs and throws again.
\<close>

definition analyzeSlideImage_services ::
  "(jsstring \<Rightarrow> js_error + json) \<Rightarrow> js_error + jsstring option \<Rightarrow>
   event list \<times> (js_error + json)"
where
  "analyzeSlideImage_services jsonParse response =
     (case response of
        Inl error \<Rightarrow> ([ConsoleError error], Inl error)
      | Inr None \<Rightarrow> ([], Inr defaultResult)
      | Inr (Some text) \<Rightarrow>
          if text = [] then ([], Inr defaultResult)
          else
            (let jsonStr = trim (replaceTrailingFence (replaceLeadingFence text))
             in case jsonParse jsonStr of
                  Inr v \<Rightarrow> ([CallJsonParse jsonStr], Inr v)
                | Inl error \<Rightarrow> ([CallJsonParse jsonStr, ConsoleError error], Inl error)))"

section \<open>The stages of \<open>sanitizeJsonString\<close>\<close>

lemma sanitize_stages:
  "sanitizeJsonString s = removeControlChars (replaceBadUnicode (jsonBounds (stripFences s)))"
  by (simp add: sanitizeJsonString_def jsonBounds_def stripFences_def Let_def)

subsection \<open>The fence step\<close>

text \<open>
  The first replacement takes the first occurrence of the marker wherever it stands, here
  after any text without a backquote; the second takes the three backquotes at the end.
  A text wrapped in the two markers comes out as the text, trimmed.
\<close>

lemma replaceJsonFence_at_start:
  "replaceJsonFence (jsonFence @ r) =
     (case r of [] \<Rightarrow> [] | d # ds \<Rightarrow> if isWhiteSpace d then ds else d # ds)"
  by (simp add: jsonFence_def startsWith_def)

lemma replaceJsonFence_anywhere:
  assumes "0x60 \<notin> set pre"
  shows "replaceJsonFence (pre @ jsonFence @ r) =
           pre @ (case r of [] \<Rightarrow> [] | d # ds \<Rightarrow> if isWhiteSpace d then ds else d # ds)"
  using assms
proof (induction pre)
  case Nil
  show ?case
    using replaceJsonFence_at_start [of r] by simp
next
  case (Cons c pre)
  then have "\<not> startsWith (c # pre @ jsonFence @ r) jsonFence"
    by (auto simp: startsWith_def jsonFence_def)
  with Cons show ?case
    by simp
qed

lemma backquote_not_space: "\<not> isWhiteSpace 0x60"
  by (simp add: isWhiteSpace_def)

lemma endFenceAt_fence: "endFenceAt fence"
  by (simp add: endFenceAt_def startsWith_def fence_def)

lemma endFenceAt_cases:
  assumes "endFenceAt s"
  shows "s = fence \<or> (\<exists>d. isWhiteSpace d \<and> s = fence @ [d])"
proof -
  have t: "take (length fence) s = fence"
    using assms by (simp add: endFenceAt_def startsWith_def)
  have s: "s = fence @ drop (length fence) s"
    using append_take_drop_id [of "length fence" s] t by simp
  show ?thesis
  proof (cases "drop (length fence) s")
    case Nil
    with s show ?thesis by simp
  next
    case (Cons d ds)
    with assms have "isWhiteSpace d \<and> ds = []"
      by (simp add: endFenceAt_def)
    with s Cons show ?thesis by auto
  qed
qed

lemma endFenceAt_longer: "\<not> endFenceAt (c # x @ fence)"
proof
  assume "endFenceAt (c # x @ fence)"
  then consider "c # x @ fence = fence"
    | d where "isWhiteSpace d" and "c # x @ fence = fence @ [d]"
    using endFenceAt_cases by blast
  then show False
  proof cases
    case 1
    then have "length (c # x @ fence) = length fence" by simp
    then show False by simp
  next
    case 2
    then have "last (c # x @ fence) = last (fence @ [d])" by simp
    then have "d = 0x60" by (simp add: fence_def)
    with 2 backquote_not_space show False by simp
  qed
qed

lemma replaceEndFence_at_end: "replaceEndFence (x @ fence) = x"
proof (induction x)
  case Nil
  have "replaceEndFence fence = []"
    using endFenceAt_fence by (simp add: fence_def)
  then show ?case by simp
next
  case (Cons c x)
  then show ?case
    using endFenceAt_longer [of c x] by simp
qed

lemma trim_leading_space: "isWhiteSpace d \<Longrightarrow> trim (d # ds) = trim ds"
  by (simp add: trim_def)

lemma stripFences_wrapped: "stripFences (jsonFence @ y @ fence) = trim y"
proof -
  have "replaceJsonFence (jsonFence @ y @ fence) =
          (case y of [] \<Rightarrow> [] | d # ds \<Rightarrow> if isWhiteSpace d then ds else d # ds) @ fence"
    by (cases y) (simp_all add: replaceJsonFence_at_start fence_def backquote_not_space)
  then have "stripFences (jsonFence @ y @ fence) =
          trim (case y of [] \<Rightarrow> [] | d # ds \<Rightarrow> if isWhiteSpace d then ds else d # ds)"
    by (simp only: stripFences_def replaceEndFence_at_end)
  also have "\<dots> = trim y"
    by (cases y) (simp_all add: trim_leading_space)
  finally show ?thesis .
qed

subsection \<open>Indices and substrings\<close>

lemma indexOf_absent: "c \<notin> set s \<Longrightarrow> indexOf s c = -1"
  by (induction s) (auto simp: Let_def)

lemma indexOf_first: "c \<notin> set pre \<Longrightarrow> indexOf (pre @ c # rest) c = int (length pre)"
  by (induction pre) (auto simp: Let_def)

lemma lastIndexOf_absent: "c \<notin> set s \<Longrightarrow> lastIndexOf s c = -1"
  by (induction s) (auto simp: Let_def)

lemma lastIndexOf_last: "c \<notin> set post \<Longrightarrow> lastIndexOf (pre @ c # post) c = int (length pre)"
  by (induction pre) (auto simp: Let_def lastIndexOf_absent)

lemma substring_ordered:
  "0 \<le> a \<Longrightarrow> a \<le> b \<Longrightarrow> b \<le> int (length s) \<Longrightarrow>
   substring s a b = take (nat (b - a)) (drop (nat a) s)"
  by (simp add: substring_def Let_def min_def max_def)

lemma substring_swapped:
  "0 \<le> b \<Longrightarrow> b \<le> a \<Longrightarrow> a \<le> int (length s) \<Longrightarrow>
   substring s a b = take (nat (a - b)) (drop (nat b) s)"
  by (simp add: substring_def Let_def min_def max_def)

lemma braces_differ: "openBrace \<noteq> closeBrace"
  by (simp add: openBrace_def closeBrace_def)

subsection \<open>The brace step\<close>

lemma jsonBounds_span:
  assumes "openBrace \<notin> set pre" and "closeBrace \<notin> set post"
  shows "jsonBounds (pre @ openBrace # mid @ closeBrace # post) = openBrace # mid @ [closeBrace]"
proof -
  let ?t = "pre @ openBrace # mid @ closeBrace # post"
  have f: "indexOf ?t openBrace = int (length pre)"
    using assms(1) by (rule indexOf_first)
  have "lastIndexOf ((pre @ openBrace # mid) @ closeBrace # post) closeBrace
          = int (length (pre @ openBrace # mid))"
    using assms(2) by (rule lastIndexOf_last)
  then have l: "lastIndexOf ?t closeBrace = int (length pre) + int (length mid) + 1"
    by simp
  have "substring ?t (int (length pre)) (int (length pre) + int (length mid) + 1 + 1)
        = take (nat (int (length pre) + int (length mid) + 1 + 1 - int (length pre)))
            (drop (nat (int (length pre))) ?t)"
    by (rule substring_ordered) simp_all
  also have "\<dots> = take (length mid + 2) (openBrace # mid @ closeBrace # post)"
    by (simp add: nat_add_distrib)
  also have "\<dots> = openBrace # mid @ [closeBrace]"
    by simp
  finally show ?thesis
    by (simp add: jsonBounds_def f l Let_def)
qed

lemma jsonBounds_no_brace:
  "openBrace \<notin> set t \<or> closeBrace \<notin> set t \<Longrightarrow> jsonBounds t = t"
  by (auto simp: jsonBounds_def Let_def indexOf_absent lastIndexOf_absent)

lemma jsonBounds_swapped:
  assumes "closeBrace \<notin> set mid" and "closeBrace \<notin> set post"
    and "openBrace \<notin> set pre" and "openBrace \<notin> set mid"
  shows "jsonBounds (pre @ closeBrace # mid @ openBrace # post) = mid"
proof -
  let ?t = "pre @ closeBrace # mid @ openBrace # post"
  have "indexOf ((pre @ closeBrace # mid) @ openBrace # post) openBrace
          = int (length (pre @ closeBrace # mid))"
    using assms(3,4) braces_differ by (intro indexOf_first) auto
  then have f: "indexOf ?t openBrace = int (length pre) + 1 + int (length mid)"
    by simp
  have l: "lastIndexOf ?t closeBrace = int (length pre)"
    using assms(1,2) braces_differ by (intro lastIndexOf_last) auto
  have "substring ?t (int (length pre) + 1 + int (length mid)) (int (length pre) + 1)
        = take (nat (int (length pre) + 1 + int (length mid) - (int (length pre) + 1)))
            (drop (nat (int (length pre) + 1)) ?t)"
    by (rule substring_swapped) simp_all
  also have "\<dots> = take (length mid) (drop (Suc (length pre)) ?t)"
    by (simp add: nat_add_distrib)
  also have "\<dots> = mid"
    by simp
  finally have "substring ?t (int (length pre) + 1 + int (length mid)) (int (length pre) + 1)
                  = mid" .
  then show ?thesis
    by (simp add: jsonBounds_def f l Let_def)
qed

subsection \<open>The escape step\<close>

lemma backslash_not_hex: "\<not> isHexDigit backslash"
  by (simp add: isHexDigit_def backslash_def)

text \<open>
  The look-ahead reads four characters; a character that is no hexadecimal digit ends
  what it can accept.
\<close>

lemma fourHexDigits_cut:
  assumes "\<not> isHexDigit x"
  shows "fourHexDigits (rest @ x # ys) = fourHexDigits rest"
proof (cases rest)
  case Nil
  with assms show ?thesis
    by (cases ys rule: fourHexDigits.cases) simp_all
next
  case r0: (Cons a r1)
  show ?thesis
  proof (cases r1)
    case Nil
    with r0 assms show ?thesis
      by (cases ys rule: fourHexDigits.cases) simp_all
  next
    case r1: (Cons b r2)
    show ?thesis
    proof (cases r2)
      case Nil
      with r0 r1 assms show ?thesis
        by (cases ys) simp_all
    next
      case (Cons c r3)
      with r0 r1 assms show ?thesis
        by (cases r3) simp_all
    qed
  qed
qed

lemma replaceBadUnicode_u: "replaceBadUnicode (0x75 # post) = 0x75 # replaceBadUnicode post"
  by (cases post) (simp_all add: backslash_def)

lemma replaceBadUnicode_escape:
  "replaceBadUnicode (backslash # 0x75 # post) =
     (if fourHexDigits post then [backslash, 0x75] else [0x75]) @ replaceBadUnicode post"
  by (simp add: replaceBadUnicode_u)

lemma replaceBadUnicode_occurrence:
  "replaceBadUnicode (pre @ backslash # 0x75 # post) =
     replaceBadUnicode pre @ (if fourHexDigits post then [backslash, 0x75] else [0x75])
       @ replaceBadUnicode post"
proof (induction pre rule: replaceBadUnicode.induct)
  case (1 c d rest)
  have cut: "fourHexDigits (rest @ backslash # 0x75 # post) = fourHexDigits rest"
    by (rule fourHexDigits_cut [OF backslash_not_hex])
  show ?case
  proof (cases "c = backslash \<and> d = 0x75 \<and> \<not> fourHexDigits rest")
    case True
    then show ?thesis
      using "1.IH"(1) cut by simp
  next
    case False
    have A: "replaceBadUnicode ((c # d # rest) @ backslash # 0x75 # post)
               = c # replaceBadUnicode ((d # rest) @ backslash # 0x75 # post)"
      using False cut by auto
    have B: "replaceBadUnicode (c # d # rest) = c # replaceBadUnicode (d # rest)"
      using False by auto
    have "replaceBadUnicode ((c # d # rest) @ backslash # 0x75 # post)
            = c # (replaceBadUnicode (d # rest)
                @ (if fourHexDigits post then [backslash, 0x75] else [0x75])
                @ replaceBadUnicode post)"
      by (simp only: A "1.IH"(2) [OF False])
    also have "\<dots> = replaceBadUnicode (c # d # rest)
                @ (if fourHexDigits post then [backslash, 0x75] else [0x75])
                @ replaceBadUnicode post"
      by (simp only: B append_Cons)
    finally show ?thesis .
  qed
qed (simp_all add: replaceBadUnicode_u backslash_def)

text \<open>
  \<open>hasBackslashU\<close> holds exactly of the texts in which the two characters occur, and a
  text in which they do not occur passes the replacement unchanged.
\<close>

lemma hasBackslashU_occurrence:
  "hasBackslashU (pre @ backslash # 0x75 # post)"
  by (induction pre rule: hasBackslashU.induct) simp_all

lemma hasBackslashU_split:
  "hasBackslashU t \<Longrightarrow> \<exists>pre post. t = pre @ backslash # 0x75 # post"
proof (induction t rule: hasBackslashU.induct)
  case (1 c d rest)
  show ?case
  proof (cases "c = backslash \<and> d = 0x75")
    case True
    then have "c # d # rest = [] @ backslash # 0x75 # rest"
      by simp
    then show ?thesis
      by blast
  next
    case False
    with 1 obtain pre post where "d # rest = pre @ backslash # 0x75 # post"
      by auto
    then have "c # d # rest = (c # pre) @ backslash # 0x75 # post"
      by simp
    then show ?thesis
      by blast
  qed
qed simp_all

lemma hasBackslashU_iff:
  "hasBackslashU t = (\<exists>pre post. t = pre @ backslash # 0x75 # post)"
  using hasBackslashU_split hasBackslashU_occurrence by blast

lemma replaceBadUnicode_no_escape:
  "\<not> hasBackslashU t \<Longrightarrow> replaceBadUnicode t = t"
  by (induction t rule: replaceBadUnicode.induct) auto

subsection \<open>The control-character step\<close>

lemma inRanges_controlClass: "inRanges controlClass c = removedControl c"
  by (auto simp: controlClass_def removedControl_def)

lemma removeControlChars_filter:
  "removeControlChars s = filter (\<lambda>c. \<not> removedControl c) s"
  by (induction s) (simp_all add: inRanges_controlClass)

lemma removeControlChars_append:
  "removeControlChars (xs @ ys) = removeControlChars xs @ removeControlChars ys"
  by (simp add: removeControlChars_filter)

lemma removeControlChars_clean:
  "\<forall>c \<in> set t. \<not> removedControl c \<Longrightarrow> removeControlChars t = t"
  by (simp add: removeControlChars_filter)

lemma removeControlChars_escape:
  "removeControlChars (if b then [backslash, 0x75] else [0x75])
     = (if b then [backslash, 0x75] else [0x75])"
  by (simp add: removeControlChars_filter removedControl_def backslash_def)

section \<open>Properties of \<open>sanitizeJsonString\<close>\<close>

text \<open>
  Claim C1: the marker \<open>```json\<close> is stripped only at the start of the string, and an
  occurrence that is not at the start is not removed. The expression of line 50 has no
  \<open>^\<close>, so the function removes the first occurrence wherever it stands: a response
  whose text element has the content \<open>```json\<close> comes out with an empty content. The
  anchored expression of \<open>src/services/geminiService.ts\<close> leaves the same response as
  it is.
\<close>

theorem sanitize_removes_inner_marker:
  \<open>sanitizeJsonString
     (js ''{"backgroundColor":"#FFF","elements":[{"type":"text","content":"```json","x":0,"y":0,"width":10,"height":5}]}'')
   = js ''{"backgroundColor":"#FFF","elements":[{"type":"text","content":"","x":0,"y":0,"width":10,"height":5}]}''
   \<and> trim (replaceTrailingFence (replaceLeadingFence
     (js ''{"backgroundColor":"#FFF","elements":[{"type":"text","content":"```json","x":0,"y":0,"width":10,"height":5}]}'')))
   = js ''{"backgroundColor":"#FFF","elements":[{"type":"text","content":"```json","x":0,"y":0,"width":10,"height":5}]}''\<close>
  by code_simp

text \<open>
  Claim C2, as amended: when the text left by line 50 has an opening brace before its
  last closing brace, the text that goes on to the later replacements is exactly the span
  from the first opening brace to the last closing brace, both included, and what stands
  before and after the span is dropped; when the text has no opening brace or no closing
  brace, the whole text goes on unchanged.
\<close>

theorem sanitize_keeps_brace_span:
  "(stripFences s = pre @ openBrace # mid @ closeBrace # post \<and>
      openBrace \<notin> set pre \<and> closeBrace \<notin> set post
    \<longrightarrow> sanitizeJsonString s
          = removeControlChars (replaceBadUnicode (openBrace # mid @ [closeBrace])))
   \<and> (openBrace \<notin> set (stripFences s) \<or> closeBrace \<notin> set (stripFences s)
    \<longrightarrow> sanitizeJsonString s = removeControlChars (replaceBadUnicode (stripFences s)))"
  by (auto simp: sanitize_stages jsonBounds_span jsonBounds_no_brace)

theorem sanitize_keeps_brace_span_witness:
  \<open>sanitizeJsonString (js ''noise{"a":1}trailing'') = js ''{"a":1}''
   \<and> sanitizeJsonString (js ''no braces'') = js ''no braces''\<close>
proof -
  have d: \<open>stripFences (js ''noise{"a":1}trailing'')
             = js ''noise'' @ openBrace # js ''"a":1'' @ closeBrace # js ''trailing''\<close>
    by code_simp
  have p: "openBrace \<notin> set (js ''noise'')" "closeBrace \<notin> set (js ''trailing'')"
    by code_simp+
  have \<open>sanitizeJsonString (js ''noise{"a":1}trailing'')
          = removeControlChars (replaceBadUnicode (openBrace # js ''"a":1'' @ [closeBrace]))\<close>
    using sanitize_keeps_brace_span
      [of \<open>js ''noise{"a":1}trailing''\<close> "js ''noise''" \<open>js ''"a":1''\<close> "js ''trailing''"]
      d p
    by blast
  moreover have \<open>removeControlChars (replaceBadUnicode (openBrace # js ''"a":1'' @ [closeBrace]))
                   = js ''{"a":1}''\<close>
    by code_simp
  moreover have n: "openBrace \<notin> set (stripFences (js ''no braces''))"
    by code_simp
  have "sanitizeJsonString (js ''no braces'')
          = removeControlChars (replaceBadUnicode (stripFences (js ''no braces'')))"
    using sanitize_keeps_brace_span [of "js ''no braces''"] n by blast
  moreover have "removeControlChars (replaceBadUnicode (stripFences (js ''no braces'')))
                   = js ''no braces''"
    by code_simp
  ultimately show ?thesis
    by simp
qed

text \<open>
  Claim C2 as it is written fails where the last closing brace stands before the first
  opening brace: \<open>}x{\<close> has both braces, the span from the first opening brace to the
  last closing brace is empty, and the function returns \<open>x\<close>, which keeps neither brace.
\<close>

theorem sanitize_brace_span_counterexample:
  "openBrace \<in> set (stripFences (js ''}x{''))
   \<and> closeBrace \<in> set (stripFences (js ''}x{''))
   \<and> sanitizeJsonString (js ''}x{'') = js ''x''
   \<and> sanitizeJsonString (js ''}x{'')
       \<noteq> removeControlChars (replaceBadUnicode (braceSpan (stripFences (js ''}x{''))))"
  by code_simp

text \<open>
  Claim C3, as amended: in the text that reaches line 61, after the fences are stripped,
  the text is trimmed and the brace step has run, every backslash followed by \<open>u\<close>
  that is not followed by four hexadecimal digits becomes \<open>u\<close>, and every backslash
  followed by \<open>u\<close> and four hexadecimal digits stays as it is; whatever stands before
  and after an occurrence is handled on its own, and a text in which no backslash is
  followed by \<open>u\<close> passes the replacement unchanged. The removal of control
  characters then runs on the result.
\<close>

theorem sanitize_unicode_escape:
  "(jsonBounds (stripFences s) = pre @ backslash # 0x75 # post
    \<longrightarrow> sanitizeJsonString s =
          removeControlChars (replaceBadUnicode pre)
          @ (if fourHexDigits post then [backslash, 0x75] else [0x75])
          @ removeControlChars (replaceBadUnicode post))
   \<and> (\<not> hasBackslashU (jsonBounds (stripFences s))
    \<longrightarrow> sanitizeJsonString s = removeControlChars (jsonBounds (stripFences s)))"
proof (intro conjI impI)
  assume d: "jsonBounds (stripFences s) = pre @ backslash # 0x75 # post"
  show "sanitizeJsonString s =
          removeControlChars (replaceBadUnicode pre)
          @ (if fourHexDigits post then [backslash, 0x75] else [0x75])
          @ removeControlChars (replaceBadUnicode post)"
    by (simp only: sanitize_stages d replaceBadUnicode_occurrence removeControlChars_append
          removeControlChars_escape)
next
  assume "\<not> hasBackslashU (jsonBounds (stripFences s))"
  then show "sanitizeJsonString s = removeControlChars (jsonBounds (stripFences s))"
    by (simp add: sanitize_stages replaceBadUnicode_no_escape)
qed

theorem sanitize_unicode_escape_witness:
  "sanitizeJsonString (backslash # js ''u12 foo'') = js ''u12 foo''
   \<and> sanitizeJsonString (backslash # js ''u1234 foo'') = backslash # js ''u1234 foo''
   \<and> sanitizeJsonString (js ''plain u12'') = js ''plain u12''"
proof -
  have b1: "jsonBounds (stripFences (backslash # js ''u12 foo''))
              = [] @ backslash # 0x75 # js ''12 foo''"
    by code_simp
  have b2: "jsonBounds (stripFences (backslash # js ''u1234 foo''))
              = [] @ backslash # 0x75 # js ''1234 foo''"
    by code_simp
  have b3: "\<not> hasBackslashU (jsonBounds (stripFences (js ''plain u12'')))"
    by code_simp
  have "sanitizeJsonString (backslash # js ''u12 foo'')
          = removeControlChars (replaceBadUnicode [])
            @ (if fourHexDigits (js ''12 foo'') then [backslash, 0x75] else [0x75])
            @ removeControlChars (replaceBadUnicode (js ''12 foo''))"
    using sanitize_unicode_escape
      [where s = "backslash # js ''u12 foo''" and pre = "[]" and post = "js ''12 foo''"] b1
    by blast
  also have "\<dots> = js ''u12 foo''"
    by code_simp
  finally have r1: "sanitizeJsonString (backslash # js ''u12 foo'') = js ''u12 foo''" .
  have "sanitizeJsonString (backslash # js ''u1234 foo'')
          = removeControlChars (replaceBadUnicode [])
            @ (if fourHexDigits (js ''1234 foo'') then [backslash, 0x75] else [0x75])
            @ removeControlChars (replaceBadUnicode (js ''1234 foo''))"
    using sanitize_unicode_escape
      [where s = "backslash # js ''u1234 foo''" and pre = "[]" and post = "js ''1234 foo''"] b2
    by blast
  also have "\<dots> = backslash # js ''u1234 foo''"
    by code_simp
  finally have r2: "sanitizeJsonString (backslash # js ''u1234 foo'')
                      = backslash # js ''u1234 foo''" .
  have "sanitizeJsonString (js ''plain u12'')
          = removeControlChars (jsonBounds (stripFences (js ''plain u12'')))"
    using sanitize_unicode_escape [where s = "js ''plain u12''"] b3
    by blast
  also have "\<dots> = js ''plain u12''"
    by code_simp
  finally show ?thesis
    using r1 r2 by simp
qed

text \<open>
  Claim C3 as it is written, about the occurrences of the input, fails. In
  \<open>\u12```json34\<close> the backslash and \<open>u\<close> are not followed by four hexadecimal
  digits, and the backslash stays: the marker is removed first, and what reaches line 61
  is \<open>\u1234\<close>. In \<open>\u1234 {}\<close> and \<open>\u12 {}\<close> the brace step cuts the
  occurrence away, so the first is not left as it is and the second does not become
  \<open>u12\<close>.
\<close>

theorem sanitize_unicode_escape_counterexample:
  "\<not> fourHexDigits (js ''12```json34'')
   \<and> sanitizeJsonString (backslash # js ''u12```json34'') = backslash # js ''u1234''
   \<and> fourHexDigits (js ''1234 {}'')
   \<and> sanitizeJsonString (backslash # js ''u1234 {}'') = js ''{}''
   \<and> sanitizeJsonString (backslash # js ''u12 {}'') = js ''{}''"
  by code_simp




text \<open>
  Claim C9: no character of the removed control ranges occurs in the result of
  \<open>sanitizeJsonString\<close>, whatever the input: the removal of control characters is the
  last step.
\<close>

theorem sanitize_result_has_no_control_char:
  "c \<in> set (sanitizeJsonString s) \<Longrightarrow> \<not> removedControl c"
  by (simp add: sanitize_stages removeControlChars_filter)

theorem sanitize_result_has_no_control_char_witness:
  "0x41 \<in> set (sanitizeJsonString [0x01, 0x41, 0x9F]) \<and> \<not> removedControl 0x41"
proof -
  have m: "0x41 \<in> set (sanitizeJsonString [0x01, 0x41, 0x9F])"
    by code_simp
  from sanitize_result_has_no_control_char [OF m] m show ?thesis
    by simp
qed

text \<open>
  Claim C10, as amended: when, in the text left by line 50, the last closing brace stands
  before the first opening brace, \<open>substring\<close> swaps its arguments, and the text that
  goes on to the escape and control-character replacements is what stands strictly
  between the two braces, both excluded. The function returns that text after the two
  replacements; it returns the text itself when no backslash in it is followed by \<open>u\<close>
  and it has no character of the removed control ranges.
\<close>

theorem sanitize_swapped_braces:
  assumes "stripFences s = pre @ closeBrace # mid @ openBrace # post"
    and "closeBrace \<notin> set mid" and "closeBrace \<notin> set post"
    and "openBrace \<notin> set pre" and "openBrace \<notin> set mid"
  shows "jsonBounds (stripFences s) = mid
         \<and> sanitizeJsonString s = removeControlChars (replaceBadUnicode mid)
         \<and> (\<not> hasBackslashU mid \<and> (\<forall>c \<in> set mid. \<not> removedControl c)
              \<longrightarrow> sanitizeJsonString s = mid)"
  using assms
  by (simp add: sanitize_stages jsonBounds_swapped replaceBadUnicode_no_escape
        removeControlChars_clean)

theorem sanitize_swapped_braces_witness:
  "sanitizeJsonString (js ''}x{'') = js ''x''"
proof -
  have d: "stripFences (js ''}x{'') = [] @ closeBrace # js ''x'' @ openBrace # []"
    by code_simp
  have n: "\<not> hasBackslashU (js ''x'')" "\<forall>c \<in> set (js ''x''). \<not> removedControl c"
    by code_simp+
  have "jsonBounds (stripFences (js ''}x{'')) = js ''x''
        \<and> sanitizeJsonString (js ''}x{'') = removeControlChars (replaceBadUnicode (js ''x''))
        \<and> (\<not> hasBackslashU (js ''x'') \<and> (\<forall>c \<in> set (js ''x''). \<not> removedControl c)
             \<longrightarrow> sanitizeJsonString (js ''}x{'') = js ''x'')"
    by (rule sanitize_swapped_braces [OF d]) (code_simp+)
  with n show ?thesis
    by blast
qed

text \<open>
  Claim C10 as it is written, with the text between the braces as the result, fails
  where that text is changed by the later replacements: between the braces of the first
  input stands the control character 0x01 and the result is empty, and between those of
  the second stands \<open>a\u12b\<close> and the result is \<open>au12b\<close>.
\<close>

theorem sanitize_swapped_braces_counterexample:
  "stripFences [closeBrace, 0x01, openBrace] = [] @ closeBrace # [0x01] @ openBrace # []
   \<and> sanitizeJsonString [closeBrace, 0x01, openBrace] = []
   \<and> sanitizeJsonString [closeBrace, 0x01, openBrace] \<noteq> [0x01]
   \<and> stripFences (js ''}a'' @ backslash # js ''u12b{'')
       = [] @ closeBrace # (js ''a'' @ backslash # js ''u12b'') @ openBrace # []
   \<and> sanitizeJsonString (js ''}a'' @ backslash # js ''u12b{'') = js ''au12b''
   \<and> sanitizeJsonString (js ''}a'' @ backslash # js ''u12b{'')
       \<noteq> js ''a'' @ backslash # js ''u12b''"
  by code_simp

section \<open>The bound on the recursion of the parser\<close>

text \<open>
  Every parser leaves a rest no longer than its input, and a string literal a shorter
  one. With that, a depth of more than twice the length of the text is never used up:
  one more level gives the same result, so the depth \<open>JSON_parse\<close> starts with is
  enough, and \<open>None\<close> is a syntax error of the text.
\<close>

lemma length_skipWs: "length (skipWs s) \<le> length s"
  by (simp add: skipWs_def length_dropWhile_le)

lemma skipWs_Cons: "skipWs s = c # cs \<Longrightarrow> length cs < length s"
  using length_skipWs [of s] by simp

lemma parseStringBody_rest:
  "parseStringBody s = Some (x, r) \<Longrightarrow> length r < length s"
proof (induction s arbitrary: x r rule: length_induct)
  case (1 s)
  have IH: "\<And>t y q. parseStringBody t = Some (y, q) \<Longrightarrow> length t < length s
              \<Longrightarrow> length q < length t"
    using "1.IH" by blast
  show ?case
  proof (cases s)
    case Nil
    with "1.prems" show ?thesis by simp
  next
    case (Cons c cs)
    with "1.prems" show ?thesis
      by (fastforce split: if_splits list.splits option.splits dest: IH)
  qed
qed

lemma parseFraction_rest: "parseFraction s = Some (fp, r) \<Longrightarrow> length r \<le> length s"
  by (auto simp: parseFraction_def Let_def split: list.splits if_splits
        intro: le_trans [OF length_dropWhile_le])

lemma parseExponent_rest: "parseExponent s = Some (ex, r) \<Longrightarrow> length r \<le> length s"
  by (auto simp: parseExponent_def Let_def split: list.splits if_splits
        intro: le_trans [OF length_dropWhile_le])

lemma parseNumber_rest:
  assumes "parseNumber s = Some (v, r)"
  shows "length r \<le> length s"
proof -
  define s1 where "s1 = (if (case s of [] \<Rightarrow> False | m # ms \<Rightarrow> m = 0x2D) then tl s else s)"
  have s1: "length s1 \<le> length s"
    by (simp add: s1_def)
  from assms obtain fp s2 ex where
    f: "parseFraction (dropWhile isDigit s1) = Some (fp, s2)" and
    e: "parseExponent s2 = Some (ex, r)"
    by (auto simp: parseNumber_def Let_def s1_def split: if_splits option.splits)
  have "length r \<le> length s2"
    using e by (rule parseExponent_rest)
  also have "\<dots> \<le> length (dropWhile isDigit s1)"
    using f by (rule parseFraction_rest)
  also have "\<dots> \<le> length s1"
    by (rule length_dropWhile_le)
  finally show ?thesis
    using s1 by simp
qed


lemma parse_rest:
  "(\<forall>s v r. parseValue n s = Some (v, r) \<longrightarrow> length r \<le> length s) \<and>
   (\<forall>s vs r. parseElements n s = Some (vs, r) \<longrightarrow> length r \<le> length s) \<and>
   (\<forall>s ms r. parseMembers n s = Some (ms, r) \<longrightarrow> length r \<le> length s)"
proof (induction n)
  case 0
  show ?case by simp
next
  case (Suc n)
  have V: "\<And>s v r. parseValue n s = Some (v, r) \<Longrightarrow> length r \<le> length s"
    and E: "\<And>s vs r. parseElements n s = Some (vs, r) \<Longrightarrow> length r \<le> length s"
    and M: "\<And>s ms r. parseMembers n s = Some (ms, r) \<Longrightarrow> length r \<le> length s"
    using Suc by blast+
  have v: "length r \<le> length s" if a: "parseValue (Suc n) s = Some (v, r)" for s v r
  proof (cases "skipWs s")
    case Nil
    with a show ?thesis by simp
  next
    case (Cons c cs)
    note len = skipWs_Cons [OF Cons]
    from a Cons len show ?thesis
      by (auto split: if_splits list.splits option.splits
            dest!: M E parseStringBody_rest parseNumber_rest skipWs_Cons)
  qed
  have e: "length r \<le> length s" if a: "parseElements (Suc n) s = Some (vs, r)" for s vs r
    using a
    by (auto split: if_splits list.splits option.splits dest!: V E skipWs_Cons)
  have m: "length r \<le> length s" if a: "parseMembers (Suc n) s = Some (ms, r)" for s ms r
    using a
    by (auto split: if_splits list.splits option.splits
          dest!: V M parseStringBody_rest skipWs_Cons)
  from v e m show ?case by blast
qed


lemma parseValue_rest: "parseValue n s = Some (v, r) \<Longrightarrow> length r \<le> length s"
  using parse_rest [of n] by blast

lemma parse_stable:
  "(\<forall>s. 2 * length s < n \<longrightarrow> parseValue (Suc n) s = parseValue n s) \<and>
   (\<forall>s. 2 * length s + 1 < n \<longrightarrow> parseElements (Suc n) s = parseElements n s) \<and>
   (\<forall>s. 2 * length s + 1 < n \<longrightarrow> parseMembers (Suc n) s = parseMembers n s)"
proof (induction n)
  case 0
  show ?case by simp
next
  case (Suc n)
  have V: "\<And>s. 2 * length s < n \<Longrightarrow> parseValue (Suc n) s = parseValue n s"
    and E: "\<And>s. 2 * length s + 1 < n \<Longrightarrow> parseElements (Suc n) s = parseElements n s"
    and M: "\<And>s. 2 * length s + 1 < n \<Longrightarrow> parseMembers (Suc n) s = parseMembers n s"
    using Suc by blast+
  have v: "parseValue (Suc (Suc n)) s = parseValue (Suc n) s" if b: "2 * length s < Suc n" for s
  proof (cases "skipWs s")
    case Nil
    then show ?thesis
      by (simp only: parseValue.simps(2) [of "Suc n" s] parseValue.simps(2) [of n s] list.case)
  next
    case (Cons c cs)
    from skipWs_Cons [OF Cons] b have l: "2 * length cs + 1 < n"
      by simp
    show ?thesis
      by (simp only: parseValue.simps(2) [of "Suc n" s] parseValue.simps(2) [of n s] Cons
            list.case M [OF l] E [OF l])
  qed
  have e: "parseElements (Suc (Suc n)) s = parseElements (Suc n) s"
    if b: "2 * length s + 1 < Suc n" for s
  proof -
    from b have pv: "parseValue (Suc n) s = parseValue n s"
      by (intro V) simp
    show ?thesis
    proof (cases "parseValue n s")
      case None
      then show ?thesis
        by (simp only: parseElements.simps(2) [of "Suc n" s] parseElements.simps(2) [of n s]
              pv option.case)
    next
      case (Some p)
      obtain w r where p: "p = (w, r)"
        by (cases p)
      from Some p have lr: "length r \<le> length s"
        by (auto dest: parseValue_rest)
      show ?thesis
      proof (cases "skipWs r")
        case Nil
        then show ?thesis
          by (simp only: parseElements.simps(2) [of "Suc n" s] parseElements.simps(2) [of n s]
                pv Some p option.case prod.case list.case)
      next
        case (Cons c cs)
        from skipWs_Cons [OF Cons] lr b have l: "2 * length cs + 1 < n"
          by simp
        show ?thesis
          by (simp only: parseElements.simps(2) [of "Suc n" s] parseElements.simps(2) [of n s]
                pv Some p option.case prod.case Cons list.case E [OF l])
      qed
    qed
  qed
  have m: "parseMembers (Suc (Suc n)) s = parseMembers (Suc n) s"
    if b: "2 * length s + 1 < Suc n" for s
  proof (cases "skipWs s")
    case Nil
    then show ?thesis
      by (simp only: parseMembers.simps(2) [of "Suc n" s] parseMembers.simps(2) [of n s]
            list.case)
  next
    case s: (Cons q qs)
    show ?thesis
    proof (cases "parseStringBody qs")
      case None
      with s show ?thesis
        by (simp only: parseMembers.simps(2) [of "Suc n" s] parseMembers.simps(2) [of n s]
              list.case option.case)
    next
      case k: (Some p)
      obtain k r where p: "p = (k, r)"
        by (cases p)
      from k p have lr: "length r < length qs"
        by (auto dest: parseStringBody_rest)
      show ?thesis
      proof (cases "skipWs r")
        case Nil
        with s k p show ?thesis
          by (simp only: parseMembers.simps(2) [of "Suc n" s] parseMembers.simps(2) [of n s]
                list.case option.case prod.case)
      next
        case r: (Cons c cs)
        from skipWs_Cons [OF r] lr skipWs_Cons [OF s] b have lc: "2 * length cs < n"
          by simp
        note pv = V [OF lc]
        show ?thesis
        proof (cases "parseValue n cs")
          case None
          with s k p r show ?thesis
            by (simp only: parseMembers.simps(2) [of "Suc n" s] parseMembers.simps(2) [of n s]
                  list.case option.case prod.case pv)
        next
          case v: (Some p2)
          obtain w r2 where p2: "p2 = (w, r2)"
            by (cases p2)
          from v p2 have lr2: "length r2 \<le> length cs"
            by (auto dest: parseValue_rest)
          show ?thesis
          proof (cases "skipWs r2")
            case Nil
            with s k p r v p2 show ?thesis
              by (simp only: parseMembers.simps(2) [of "Suc n" s]
                    parseMembers.simps(2) [of n s] list.case option.case prod.case pv)
          next
            case (Cons e es)
            from skipWs_Cons [OF Cons] lr2 lc have l: "2 * length es + 1 < n"
              by simp
            from s k p r v p2 Cons show ?thesis
              by (simp only: parseMembers.simps(2) [of "Suc n" s]
                    parseMembers.simps(2) [of n s] list.case option.case prod.case pv
                    M [OF l])
          qed
        qed
      qed
    qed
  qed
  from v e m show ?case by blast
qed

lemma parseValue_fuel:
  "parseValue (2 * length s + 2 + k) s = parseValue (2 * length s + 2) s"
proof (induction k)
  case 0
  show ?case by simp
next
  case (Suc k)
  have "parseValue (Suc (2 * length s + 2 + k)) s = parseValue (2 * length s + 2 + k) s"
    using parse_stable [of "2 * length s + 2 + k"] by simp
  with Suc show ?case by simp
qed

lemma JSON_parse_fuel:
  "JSON_parse s =
     (case parseValue (2 * length s + 2 + k) s of
        None \<Rightarrow> Inl (SyntaxError ''Unexpected token'')
      | Some (v, r) \<Rightarrow>
          if skipWs r = [] then Inr v else Inl (SyntaxError ''Unexpected token''))"
  by (simp only: JSON_parse_def parseValue_fuel)

section \<open>Properties of \<open>analyzeSlideImage\<close>\<close>

text \<open>
  Claim C5: when the text of the response is absent or empty, the function returns the
  default result, a white background and no elements, and calls neither
  \<open>sanitizeJsonString\<close> nor the parser: the record of calls is empty, whatever the
  parser is. The same holds for the function of \<open>src/services/geminiService.ts\<close>.
\<close>

theorem analyze_empty_response:
  "analyzeSlideImage jsonParse (Inr None) = ([], Inr defaultResult)
   \<and> analyzeSlideImage jsonParse (Inr (Some [])) = ([], Inr defaultResult)
   \<and> analyzeSlideImage_services jsonParse (Inr None) = ([], Inr defaultResult)
   \<and> analyzeSlideImage_services jsonParse (Inr (Some [])) = ([], Inr defaultResult)
   \<and> defaultResult = JObject [(js ''backgroundColor'', JString (js ''#FFFFFF'')),
                               (js ''elements'', JArray [])]"
  by (simp add: analyzeSlideImage_def analyzeSlideImage_services_def defaultResult_def)

text \<open>
  Claim C6: when the text of the response is not empty and the parser throws on the
  sanitized text, the function throws that same error. It has called
  \<open>sanitizeJsonString\<close> and the parser once each, logged the error and, for a
  \<open>SyntaxError\<close>, the warning; it makes no second attempt and returns no result.
\<close>

theorem analyze_parse_error_propagates:
  assumes "text \<noteq> []" and "jsonParse (sanitizeJsonString text) = Inl error"
  shows "analyzeSlideImage jsonParse (Inr (Some text)) =
           ([CallSanitize text, CallJsonParse (sanitizeJsonString text), ConsoleError error]
              @ (if isSyntaxError error
                 then [ConsoleWarn ''Retrying with more aggressive cleaning...'']
                 else []),
            Inl error)"
  using assms by (simp add: analyzeSlideImage_def catchBlock_def Let_def)

theorem analyze_parse_error_propagates_witness:
  \<open>snd (analyzeSlideImage JSON_parse (Inr (Some (js ''{"backgroundColor": invalid}''))))
     = Inl (SyntaxError ''Unexpected token'')\<close>
proof -
  have ne: \<open>js ''{"backgroundColor": invalid}'' \<noteq> []\<close>
    by code_simp
  have err: \<open>JSON_parse (sanitizeJsonString (js ''{"backgroundColor": invalid}''))
               = Inl (SyntaxError ''Unexpected token'')\<close>
    by code_simp
  show ?thesis
    by (simp only: analyze_parse_error_propagates [where jsonParse = JSON_parse, OF ne err]
          snd_conv)
qed

text \<open>
  Claim C7: the fenced response of the specification's example is parsed to the object
  with background \<open>#FFF\<close> and no elements, and the response wrapped in \<open>noise\<close> and
  \<open>trailing\<close> to an object whose \<open>elements\<close> holds one element, of type \<open>text\<close> and
  content \<open>hi\<close>. The newline of the first example is the code unit 0x0A.
\<close>

theorem analyze_examples:
  \<open>snd (analyzeSlideImage JSON_parse
          (Inr (Some (js ''```json'' @ [0x0A]
                      @ js ''{"backgroundColor":"#FFF","elements":[]}'' @ [0x0A] @ js ''```''))))
     = Inr (JObject [(js ''backgroundColor'', JString (js ''#FFF'')), (js ''elements'', JArray [])])
   \<and> snd (analyzeSlideImage JSON_parse
          (Inr (Some (js ''noise{"backgroundColor":"#000","elements":[{"type":"text","content":"hi","x":0,"y":0,"width":10,"height":5}]}trailing''))))
     = Inr (JObject
              [(js ''backgroundColor'', JString (js ''#000'')),
               (js ''elements'',
                JArray [JObject [(js ''type'', JString (js ''text'')),
                                 (js ''content'', JString (js ''hi'')),
                                 (js ''x'', JNumber 0 0), (js ''y'', JNumber 0 0),
                                 (js ''width'', JNumber 10 0), (js ''height'', JNumber 5 0)]])])\<close>
  by code_simp

text \<open>
  Claim C8, as amended: when the text of the response is not empty and the parser
  returns a value for the cleaned text, the function returns that value as it is, in both
  source files; a property the value does not have is not added. The default background
  is part of the result for an absent or empty text only.
\<close>

theorem analyze_returns_parsed_value:
  "(text \<noteq> [] \<and> jsonParse (sanitizeJsonString text) = Inr v
      \<longrightarrow> snd (analyzeSlideImage jsonParse (Inr (Some text))) = Inr v)
   \<and> (text \<noteq> [] \<and> jsonParse (trim (replaceTrailingFence (replaceLeadingFence text))) = Inr v
      \<longrightarrow> snd (analyzeSlideImage_services jsonParse (Inr (Some text))) = Inr v)"
  by (simp add: analyzeSlideImage_def analyzeSlideImage_services_def Let_def)

theorem analyze_returns_parsed_value_witness:
  \<open>snd (analyzeSlideImage JSON_parse (Inr (Some (js ''{"elements":[]}''))))
     = Inr (JObject [(js ''elements'', JArray [])])
   \<and> snd (analyzeSlideImage_services JSON_parse (Inr (Some (js ''{"elements":[]}''))))
     = Inr (JObject [(js ''elements'', JArray [])])\<close>
proof -
  have ne: \<open>js ''{"elements":[]}'' \<noteq> []\<close>
    by code_simp
  have p1: \<open>JSON_parse (sanitizeJsonString (js ''{"elements":[]}''))
              = Inr (JObject [(js ''elements'', JArray [])])\<close>
    by code_simp
  have p2: \<open>JSON_parse (trim (replaceTrailingFence (replaceLeadingFence (js ''{"elements":[]}''))))
              = Inr (JObject [(js ''elements'', JArray [])])\<close>
    by code_simp
  from analyze_returns_parsed_value
         [of \<open>js ''{"elements":[]}''\<close> JSON_parse "JObject [(js ''elements'', JArray [])]"]
       ne p1 p2
  show ?thesis
    by blast
qed

text \<open>
  Claim C8 as it is written fails: the response \<open>{"elements":[]}\<close> parses, its object has
  no \<open>backgroundColor\<close>, and the value returned has none either.
\<close>

theorem analyze_missing_background_counterexample:
  \<open>snd (analyzeSlideImage JSON_parse (Inr (Some (js ''{"elements":[]}''))))
     = Inr (JObject [(js ''elements'', JArray [])])
   \<and> getProp (js ''backgroundColor'') (JObject [(js ''elements'', JArray [])]) = None
   \<and> getProp (js ''backgroundColor'') (JObject [(js ''elements'', JArray [])])
       \<noteq> Some (JString (js ''#FFFFFF''))\<close>
  by code_simp

end
